theory Spec2Isabelle
  imports Main "HOL-Library.Word"
begin

unbundle bit_operations_syntax

section \<open>netmd-commands.ts: data model\<close>

text \<open>
  JavaScript numbers that hold integers are modelled as \<open>int\<close>; \<open>string | null\<close> is
  \<open>string option\<close>. The numeric enums \<open>Encoding\<close> and \<open>TrackFlag\<close> (imported from
  netmd-interface) are kept as the numbers they are at run time.
\<close>

record Track =
  index :: int
  title :: "string option"
  duration :: int
  channel :: int
  encoding :: int
  protected :: int

record Group =
  index :: int
  title :: "string option"
  tracks :: "Track list"

record Disc =
  title :: string
  writable :: bool
  writeProtected :: bool
  used :: int
  left :: int
  total :: int
  trackCount :: int
  groups :: "Group list"

section \<open>Pure helpers on a disc\<close>

text \<open>
  \<open>disc.groups.reduce((acc, g, _) => acc + g.tracks.length, 0)\<close>: a left fold from 0.
\<close>

definition countTracksInDisc :: "Disc \<Rightarrow> int" where
  "countTracksInDisc disc =
     foldl (\<lambda>acc g. acc + int (length (tracks g))) 0 (groups disc)"

text \<open>
  The two nested \<open>for ... of\<close> loops of \<open>getTracks\<close>, each pushing onto the
  accumulator \<open>tracks\<close>.
\<close>

definition getTracks :: "Disc \<Rightarrow> Track list" where
  "getTracks disc =
     foldl (\<lambda>tracks group. foldl (\<lambda>tracks track. tracks @ [track]) tracks (Group.tracks group))
       [] (groups disc)"

section \<open>JavaScript indexing and bitwise operators\<close>

text \<open>
  \<open>xs[i]\<close> beyond the end of an array is \<open>undefined\<close>, not an error: \<open>None\<close> stands
  for \<open>undefined\<close>.
\<close>

definition js_index :: "'a list \<Rightarrow> nat \<Rightarrow> 'a option" where
  "js_index xs i = (if i < length xs then Some (xs ! i) else None)"

text \<open>
  The bitwise operators convert their operands to signed 32-bit integers first;
  \<open>undefined\<close> converts to 0.
\<close>

definition ToInt32 :: "int option \<Rightarrow> int" where
  "ToInt32 v = (case v of None \<Rightarrow> 0 | Some n \<Rightarrow> signed_take_bit 31 n)"

definition js_shl :: "int option \<Rightarrow> nat \<Rightarrow> int" where
  "js_shl a n = signed_take_bit 31 (push_bit (n mod 32) (ToInt32 a))"

definition js_or :: "int option \<Rightarrow> int option \<Rightarrow> int" where
  "js_or a b = ToInt32 a OR ToInt32 b"

definition js_and :: "int option \<Rightarrow> int option \<Rightarrow> int" where
  "js_and a b = ToInt32 a AND ToInt32 b"

section \<open>Awaited device operations\<close>

text \<open>
  Every method of the protocol command interface is awaited, talks to the device and may
  throw. An operation is a function from the device state to its outcome (\<open>Inl\<close> the
  thrown error, \<open>Inr\<close> the value) and the device state after it. \<open>await m k\<close> is
  \<open>const x = await m; k x\<close>: an error of \<open>m\<close> leaves the function at once.
  \<open>try_catch m h\<close> is \<open>try { m } catch (err) { h err }\<close>.
\<close>

type_synonym ('s, 'e, 'a) async = "'s \<Rightarrow> ('e + 'a) \<times> 's"

definition resolve :: "'a \<Rightarrow> ('s, 'e, 'a) async" where
  "resolve x = (\<lambda>s. (Inr x, s))"

definition await :: "('s, 'e, 'a) async \<Rightarrow> ('a \<Rightarrow> ('s, 'e, 'b) async) \<Rightarrow> ('s, 'e, 'b) async" where
  "await m k = (\<lambda>s. case m s of (Inl e, s') \<Rightarrow> (Inl e, s') | (Inr x, s') \<Rightarrow> k x s')"

definition try_catch :: "('s, 'e, 'a) async \<Rightarrow> ('e \<Rightarrow> ('s, 'e, 'a) async) \<Rightarrow> ('s, 'e, 'a) async" where
  "try_catch m h = (\<lambda>s. case m s of (Inl e, s') \<Rightarrow> h e s' | (Inr x, s') \<Rightarrow> (Inr x, s'))"

text \<open>
  Modelled from the spec: the native time representation in which capacities and track
  lengths arrive, which the interface of netmd-interface returns; the spec names its
  parts minutes, seconds and frames within the second.
\<close>

type_synonym NativeTime = "int \<times> int \<times> int"

text \<open>
  Modelled from the spec: \<open>timeToFrames\<close>, which netmd-commands.ts imports from utils;
  the spec gives frames = minutes * 60 * 75 + seconds * 75 + frames-within-second.
\<close>

fun timeToFrames :: "NativeTime \<Rightarrow> int" where
  "timeToFrames (minutes, seconds, frames) = minutes * 60 * 75 + seconds * 75 + frames"

text \<open>
  The methods of \<open>NetMDInterface\<close> that netmd-commands.ts calls. The class itself is
  imported from netmd-interface, so its methods are parameters of the model.
\<close>

record ('s, 'e) NetMDInterface =
  getStatus :: "('s, 'e, 8 word list) async"
  getPlaybackStatus2 :: "('s, 'e, 8 word list) async"
  getPosition :: "('s, 'e, int list option) async"
  getDiscFlags :: "('s, 'e, int) async"
  getDiscTitle :: "('s, 'e, string) async"
  getDiscCapacity :: "('s, 'e, NativeTime \<times> NativeTime \<times> NativeTime) async"
  getTrackCount :: "('s, 'e, int) async"
  getTrackGroupList :: "('s, 'e, (string option \<times> int list) list) async"
  getTrackTitle :: "int \<Rightarrow> ('s, 'e, string option) async"
  getTrackEncoding :: "int \<Rightarrow> ('s, 'e, int \<times> int) async"
  getTrackLength :: "int \<Rightarrow> ('s, 'e, NativeTime) async"
  getTrackFlags :: "int \<Rightarrow> ('s, 'e, int) async"
  sessionKeyForget :: "('s, 'e, unit) async"
  leaveSecureSession :: "('s, 'e, unit) async"
  acquire :: "('s, 'e, unit) async"
  disableNewTrackProtection :: "int \<Rightarrow> ('s, 'e, unit) async"
  release :: "('s, 'e, unit) async"

text \<open>
  The methods of \<open>MDSession\<close> that \<open>download\<close> calls. \<open>'t\<close> is \<open>MDTrack\<close>, \<open>'p\<close> the
  progress callback; \<open>downloadTrack\<close> resolves to \<open>[trk, uuid, ccid]\<close>.
\<close>

record ('s, 'e, 't, 'p) MDSession =
  init :: "('s, 'e, unit) async"
  downloadTrack :: "'t \<Rightarrow> 'p option \<Rightarrow> ('s, 'e, int \<times> string \<times> string) async"
  close :: "('s, 'e, unit) async"

section \<open>listContent\<close>

text \<open>
  The inner loop of \<open>listContent\<close>: four reads for each track number of a group, the
  assembled track pushed onto \<open>tracks\<close> (here \<open>tracks'\<close>). The position \<open>trackIndex\<close> that
  \<open>entries()\<close> yields is not used by the loop body.
\<close>

fun listTracks ::
    "('s, 'e) NetMDInterface \<Rightarrow> int list \<Rightarrow> Track list \<Rightarrow> ('s, 'e, Track list) async" where
  "listTracks mdIface [] tracks' = resolve tracks'"
| "listTracks mdIface (track # rest) tracks' =
     await (getTrackTitle mdIface track) (\<lambda>title.
     await (getTrackEncoding mdIface track) (\<lambda>(codec, channel).
     await (getTrackLength mdIface track) (\<lambda>len.
     let duration = timeToFrames len in
     await (getTrackFlags mdIface track) (\<lambda>flags.
     let t = \<lparr>Track.index = track,
              title = title,
              duration = duration,
              channel = channel,
              encoding = codec,
              protected = flags\<rparr>
     in listTracks mdIface rest (tracks' @ [t])))))"

text \<open>
  The outer loop over \<open>trackGroupList.entries()\<close>. The group \<open>g\<close> is pushed onto
  \<open>disc.groups\<close> before its tracks are read and is updated afterwards through the same
  object; the model updates the slot where it was pushed.
\<close>

fun listGroups ::
    "('s, 'e) NetMDInterface \<Rightarrow> (nat \<times> string option \<times> int list) list \<Rightarrow> Disc
       \<Rightarrow> ('s, 'e, Disc) async" where
  "listGroups mdIface [] disc = resolve disc"
| "listGroups mdIface ((groupIndex, groupName, trackLists) # rest) disc =
     (let g = \<lparr>Group.index = int groupIndex, title = groupName, tracks = []\<rparr>;
          slot = length (groups disc);
          disc = disc\<lparr>groups := groups disc @ [g]\<rparr>
      in await (listTracks mdIface trackLists []) (\<lambda>tracks.
         let g = g\<lparr>tracks := Group.tracks g @ tracks\<rparr>
         in listGroups mdIface rest (disc\<lparr>groups := (groups disc)[slot := g]\<rparr>)))"

text \<open>
  \<open>DiscFlag.writable\<close> and \<open>DiscFlag.writeProtected\<close> are constants of netmd-interface:
  they are the first two parameters.
\<close>

definition listContent ::
    "int \<Rightarrow> int \<Rightarrow> ('s, 'e) NetMDInterface \<Rightarrow> ('s, 'e, Disc) async" where
  "listContent DiscFlag_writable DiscFlag_writeProtected mdIface =
     await (getDiscFlags mdIface) (\<lambda>flags.
     await (getDiscTitle mdIface) (\<lambda>title.
     await (getDiscCapacity mdIface) (\<lambda>(discUsed, discTotal, discLeft).
     await (getTrackCount mdIface) (\<lambda>trackCount.
     let disc = \<lparr>Disc.title = title,
                 writable = (js_and (Some flags) (Some DiscFlag_writable) \<noteq> 0),
                 writeProtected = (js_and (Some flags) (Some DiscFlag_writeProtected) \<noteq> 0),
                 used = timeToFrames discUsed,
                 left = timeToFrames discLeft,
                 total = timeToFrames discTotal,
                 trackCount = trackCount,
                 groups = []\<rparr>
     in await (getTrackGroupList mdIface) (\<lambda>trackGroupList.
        listGroups mdIface (enumerate 0 trackGroupList) disc)))))"

section \<open>download\<close>

text \<open>
  \<open>newMDSession\<close> is the constructor call \<open>new MDSession(mdIface, new EKBOpenSource())\<close>;
  both classes are imported from netmd-interface. The function has no \<open>finally\<close> and
  no \<open>catch\<close> other than the two around the best-effort steps.
\<close>

definition download ::
    "('s, 'e) NetMDInterface \<Rightarrow> ('s, 'e, ('s, 'e, 't, 'p) MDSession) async \<Rightarrow> 't \<Rightarrow> 'p option
       \<Rightarrow> ('s, 'e, int \<times> string \<times> string) async" where
  "download mdIface newMDSession track progressCallback =
     await (try_catch
              (await (sessionKeyForget mdIface) (\<lambda>_.
               leaveSecureSession mdIface))
              (\<lambda>err. resolve ())) (\<lambda>_.
     await (acquire mdIface) (\<lambda>_.
     await (try_catch
              (disableNewTrackProtection mdIface 1)
              (\<lambda>err. resolve ())) (\<lambda>_.
     await newMDSession (\<lambda>session.
     await (init session) (\<lambda>_.
     await (downloadTrack session track progressCallback) (\<lambda>(trk, uuid, ccid).
     await (close session) (\<lambda>_.
     await (release mdIface) (\<lambda>_.
     resolve (trk, uuid, ccid)))))))))"

section \<open>Observing the calls of download\<close>

text \<open>
  To speak about which calls an execution makes, in which order and with which outcome,
  the interface is wrapped: each wrapped operation behaves as the original one and
  appends its name and outcome (\<open>None\<close> for success, \<open>Some e\<close> for the error thrown) to
  a log kept beside the device state.
\<close>

datatype call =
    SessionKeyForget | LeaveSecureSession | Acquire | DisableNewTrackProtection
  | NewMDSession | SessionInit | DownloadTrack | SessionClose | Release

type_synonym 'e event = "call \<times> 'e option"

definition outcome :: "'e + 'a \<Rightarrow> 'e option" where
  "outcome r = (case r of Inl e \<Rightarrow> Some e | Inr _ \<Rightarrow> None)"

definition logged :: "call \<Rightarrow> ('s, 'e, 'a) async \<Rightarrow> ('s \<times> 'e event list, 'e, 'a) async" where
  "logged c m = (\<lambda>(s, log). case m s of (r, s') \<Rightarrow> (r, (s', log @ [(c, outcome r)])))"

definition unlogged :: "('s, 'e, 'a) async \<Rightarrow> ('s \<times> 'e event list, 'e, 'a) async" where
  "unlogged m = (\<lambda>(s, log). case m s of (r, s') \<Rightarrow> (r, (s', log)))"

definition logged_interface ::
    "('s, 'e) NetMDInterface \<Rightarrow> ('s \<times> 'e event list, 'e) NetMDInterface" where
  "logged_interface mdIface =
     \<lparr>getStatus = unlogged (getStatus mdIface),
      getPlaybackStatus2 = unlogged (getPlaybackStatus2 mdIface),
      getPosition = unlogged (getPosition mdIface),
      getDiscFlags = unlogged (getDiscFlags mdIface),
      getDiscTitle = unlogged (getDiscTitle mdIface),
      getDiscCapacity = unlogged (getDiscCapacity mdIface),
      getTrackCount = unlogged (getTrackCount mdIface),
      getTrackGroupList = unlogged (getTrackGroupList mdIface),
      getTrackTitle = (\<lambda>track. unlogged (getTrackTitle mdIface track)),
      getTrackEncoding = (\<lambda>track. unlogged (getTrackEncoding mdIface track)),
      getTrackLength = (\<lambda>track. unlogged (getTrackLength mdIface track)),
      getTrackFlags = (\<lambda>track. unlogged (getTrackFlags mdIface track)),
      sessionKeyForget = logged SessionKeyForget (sessionKeyForget mdIface),
      leaveSecureSession = logged LeaveSecureSession (leaveSecureSession mdIface),
      acquire = logged Acquire (acquire mdIface),
      disableNewTrackProtection =
        (\<lambda>n. logged DisableNewTrackProtection (disableNewTrackProtection mdIface n)),
      release = logged Release (release mdIface)\<rparr>"

definition logged_session ::
    "('s, 'e, 't, 'p) MDSession \<Rightarrow> ('s \<times> 'e event list, 'e, 't, 'p) MDSession" where
  "logged_session session =
     \<lparr>init = logged SessionInit (init session),
      downloadTrack = (\<lambda>track cb. logged DownloadTrack (downloadTrack session track cb)),
      close = logged SessionClose (close session)\<rparr>"

definition logged_constructor ::
    "('s, 'e, ('s, 'e, 't, 'p) MDSession) async
       \<Rightarrow> ('s \<times> 'e event list, 'e, ('s \<times> 'e event list, 'e, 't, 'p) MDSession) async" where
  "logged_constructor newMDSession =
     await (logged NewMDSession newMDSession) (\<lambda>session. resolve (logged_session session))"

text \<open>
  The calls that one execution of \<open>download\<close> from device state \<open>s\<close> makes,
  oldest first. What the caller gets is \<open>fst (download mdIface newMDSession track cb s)\<close>.
\<close>

definition download_calls ::
    "('s, 'e) NetMDInterface \<Rightarrow> ('s, 'e, ('s, 'e, 't, 'p) MDSession) async \<Rightarrow> 't \<Rightarrow> 'p option
       \<Rightarrow> 's \<Rightarrow> 'e event list" where
  "download_calls mdIface newMDSession track progressCallback s =
     snd (snd (download (logged_interface mdIface) (logged_constructor newMDSession)
                 track progressCallback (s, [])))"

text \<open>
  Forgetting the log of a logged execution.
\<close>

definition unlog :: "('e + 'a) \<times> 's \<times> 'e event list \<Rightarrow> ('e + 'a) \<times> 's" where
  "unlog r = (fst r, fst (snd r))"

text \<open>
  The executions of \<open>download\<close>, as sequences of calls with the result the caller
  gets. First the clean-up: either \<open>sessionKeyForget\<close> throws, or it succeeds and
  \<open>leaveSecureSession\<close> is called. Then one path for each place where the function can
  end. That every execution is one of these is lemma \<open>download_takes_path\<close>.
\<close>

inductive cleanup_path :: "'e event list \<Rightarrow> bool" where
  forget_failed: "cleanup_path [(SessionKeyForget, Some e)]"
| leave_attempted: "cleanup_path [(SessionKeyForget, None), (LeaveSecureSession, x)]"

inductive download_path :: "'e event list \<Rightarrow> 'e + int \<times> string \<times> string \<Rightarrow> bool" where
  acquire_failed:
    "cleanup_path pre \<Longrightarrow> download_path (pre @ [(Acquire, Some e)]) (Inl e)"
| constructor_failed:
    "cleanup_path pre \<Longrightarrow>
     download_path (pre @ [(Acquire, None), (DisableNewTrackProtection, d),
       (NewMDSession, Some e)]) (Inl e)"
| init_failed:
    "cleanup_path pre \<Longrightarrow>
     download_path (pre @ [(Acquire, None), (DisableNewTrackProtection, d),
       (NewMDSession, None), (SessionInit, Some e)]) (Inl e)"
| transfer_failed:
    "cleanup_path pre \<Longrightarrow>
     download_path (pre @ [(Acquire, None), (DisableNewTrackProtection, d),
       (NewMDSession, None), (SessionInit, None), (DownloadTrack, Some e)]) (Inl e)"
| close_failed:
    "cleanup_path pre \<Longrightarrow>
     download_path (pre @ [(Acquire, None), (DisableNewTrackProtection, d),
       (NewMDSession, None), (SessionInit, None), (DownloadTrack, None),
       (SessionClose, Some e)]) (Inl e)"
| release_failed:
    "cleanup_path pre \<Longrightarrow>
     download_path (pre @ [(Acquire, None), (DisableNewTrackProtection, d),
       (NewMDSession, None), (SessionInit, None), (DownloadTrack, None),
       (SessionClose, None), (Release, Some e)]) (Inl e)"
| completed:
    "cleanup_path pre \<Longrightarrow>
     download_path (pre @ [(Acquire, None), (DisableNewTrackProtection, d),
       (NewMDSession, None), (SessionInit, None), (DownloadTrack, None),
       (SessionClose, None), (Release, None)]) (Inr v)"

section \<open>Status decoder\<close>

text \<open>
  The types and the body of \<open>getDeviceStatus\<close>. They stand after \<open>download\<close>
  because \<open>track\<close>, \<open>time\<close> and \<open>state\<close>, fields of \<open>DeviceStatus\<close>, are names of
  variables there. The table \<open>OperatingStatus\<close> is an object with five numeric keys; the
  type \<open>OperatingStatusType\<close> is the union of its values and \<open>'unknown'\<close>.
\<close>

datatype OperatingStatusType = ready | playing | fastForward | rewind | readingTOC | unknown

definition OperatingStatus :: "(int \<times> OperatingStatusType) list" where
  "OperatingStatus =
     [(50687, ready),
      (50037, playing),
      (49983, fastForward),
      (49999, rewind),
      (65315, readingTOC)]"

record PositionTime =
  minute :: "int option"
  second :: "int option"
  frame :: "int option"

record DeviceStatus =
  discPresent :: bool
  time :: "PositionTime option"
  track :: "int option option"
  state :: OperatingStatusType

text \<open>
  From the position tuple the source reads \<open>position[2]\<close>, \<open>position[3]\<close> and
  \<open>position[4]\<close> for the time and \<open>position[0]\<close> for the track; an index the
  array does not have reads as \<open>undefined\<close> (the inner \<open>None\<close>), and a position
  that is \<open>null\<close> gives \<open>null\<close> (the outer \<open>None\<close>).

  \<open>operatingStatusOf\<close> is \<open>(b1 << 8) | b2\<close> on bytes 4 and 5 of the playback status
  (lines 117 and 118); the buffers hold bytes, read as numbers from 0 to 255.
\<close>

definition operatingStatusOf :: "8 word list \<Rightarrow> int" where
  "operatingStatusOf playbackStatus2 =
     (let (b1, b2) = (js_index playbackStatus2 4, js_index playbackStatus2 5)
      in js_or (Some (js_shl (map_option uint b1) 8)) (map_option uint b2))"

text \<open>
  \<open>operatingStatus in OperatingStatus ? OperatingStatus[operatingStatus] : 'unknown'\<close>
  (lines 123 and 124).
\<close>

definition lookupOperatingStatus :: "int \<Rightarrow> OperatingStatusType" where
  "lookupOperatingStatus operatingStatus =
     (case map_of OperatingStatus operatingStatus of
        Some s \<Rightarrow> s
      | None \<Rightarrow> unknown)"

text \<open>
  The body of \<open>getDeviceStatus\<close> (lines 117 to 142) as a function of the three values
  it reads. The second binding of \<open>state\<close> is the assignment under
  \<open>if (state === 'playing' && !discPresent)\<close>.
\<close>

definition deviceStatusOf ::
    "8 word list \<Rightarrow> 8 word list \<Rightarrow> int list option \<Rightarrow> DeviceStatus" where
  "deviceStatusOf status playbackStatus2 position =
     (let operatingStatus = operatingStatusOf playbackStatus2;
          track = (case position of Some p \<Rightarrow> Some (js_index p 0) | None \<Rightarrow> None);
          discPresent = (js_index status 4 = Some 0x40);
          state = lookupOperatingStatus operatingStatus;
          state = (if state = playing \<and> \<not> discPresent then ready else state);
          time = (case position of
                    Some p \<Rightarrow> Some \<lparr>minute = js_index p 2,
                                    second = js_index p 3,
                                    frame = js_index p 4\<rparr>
                  | None \<Rightarrow> None)
      in \<lparr>discPresent = discPresent, time = time, track = track, state = state\<rparr>)"

section \<open>getDeviceStatus\<close>

text \<open>
  The three reads of \<open>getDeviceStatus\<close>, in the order of the source, followed by
  \<open>deviceStatusOf\<close>. The source computes \<open>operatingStatus\<close> before it awaits
  \<open>getPosition\<close>; the computation has no effect, so its place does not matter.
\<close>

definition getDeviceStatus :: "('s, 'e) NetMDInterface \<Rightarrow> ('s, 'e, DeviceStatus) async" where
  "getDeviceStatus mdIface =
     await (getStatus mdIface) (\<lambda>status.
     await (getPlaybackStatus2 mdIface) (\<lambda>playbackStatus2.
     await (getPosition mdIface) (\<lambda>position.
     resolve (deviceStatusOf status playbackStatus2 position))))"

section \<open>A scripted device\<close>

text \<open>
  A device for running the functions on concrete inputs. Its state counts the commands
  it has received. The calls named in \<open>failing\<close> throw, and the error they throw is
  their own name; reads always succeed.
\<close>

definition demo_command :: "call list \<Rightarrow> call \<Rightarrow> 'a \<Rightarrow> (nat, call, 'a) async" where
  "demo_command failing c v = (\<lambda>n. (if c \<in> set failing then Inl c else Inr v, Suc n))"

definition demo_read :: "'a \<Rightarrow> (nat, call, 'a) async" where
  "demo_read v = (\<lambda>n. (Inr v, Suc n))"

definition demo_device ::
    "call list \<Rightarrow> int \<Rightarrow> (string option \<times> int list) list \<Rightarrow> (nat, call) NetMDInterface" where
  "demo_device failing count groupList =
     \<lparr>getStatus = demo_read [0, 0, 0, 0, 0x40],
      getPlaybackStatus2 = demo_read [0, 0, 0, 0, 0xC5, 0xFF],
      getPosition = demo_read (Some [1, 0, 0, 12, 3]),
      getDiscFlags = demo_read 0x10,
      getDiscTitle = demo_read ''Demo'',
      getDiscCapacity = demo_read ((1, 2, 10), (80, 0, 0), (78, 57, 65)),
      getTrackCount = demo_read count,
      getTrackGroupList = demo_read groupList,
      getTrackTitle = (\<lambda>n. demo_read None),
      getTrackEncoding = (\<lambda>n. demo_read (0x90, 1)),
      getTrackLength = (\<lambda>n. demo_read (n + 1, 2, 10)),
      getTrackFlags = (\<lambda>n. demo_read 3),
      sessionKeyForget = demo_command failing SessionKeyForget (),
      leaveSecureSession = demo_command failing LeaveSecureSession (),
      acquire = demo_command failing Acquire (),
      disableNewTrackProtection = (\<lambda>n. demo_command failing DisableNewTrackProtection ()),
      release = demo_command failing Release ()\<rparr>"

definition demo_session :: "call list \<Rightarrow> (nat, call, unit, unit) MDSession" where
  "demo_session failing =
     \<lparr>init = demo_command failing SessionInit (),
      downloadTrack = (\<lambda>t cb. demo_command failing DownloadTrack (7, ''uuid'', ''ccid'')),
      close = demo_command failing SessionClose ()\<rparr>"

definition demo_constructor ::
    "call list \<Rightarrow> (nat, call, (nat, call, unit, unit) MDSession) async" where
  "demo_constructor failing = demo_command failing NewMDSession (demo_session failing)"

section \<open>Properties of the pure helpers\<close>

lemma push_all: "foldl (\<lambda>acc x. acc @ [x]) acc xs = acc @ xs"
  by (induction xs arbitrary: acc) simp_all

lemma getTracks_from:
  "foldl (\<lambda>acc g. foldl (\<lambda>acc t. acc @ [t]) acc (tracks g)) acc gs
     = acc @ concat (map tracks gs)"
  by (induction gs arbitrary: acc) (simp_all add: push_all)

lemma getTracks_concat: "getTracks disc = concat (map tracks (groups disc))"
  by (simp add: getTracks_def getTracks_from)

lemma countTracks_from:
  "foldl (\<lambda>acc g. acc + int (length (tracks g))) acc gs
     = acc + int (length (concat (map tracks gs)))"
  by (induction gs arbitrary: acc) simp_all

lemma getTracks_indices:
  "map Track.index (getTracks d) = concat (map (\<lambda>g. map Track.index (tracks g)) (groups d))"
  by (simp add: getTracks_concat map_concat comp_def)

text \<open>
  C6. For every disc, whatever its groups and the tracks in them,
  \<open>countTracksInDisc\<close> is the length of the list \<open>getTracks\<close> returns.
\<close>

theorem countTracksInDisc_eq_length_getTracks:
  "countTracksInDisc d = int (length (getTracks d))"
  by (simp add: countTracksInDisc_def countTracks_from getTracks_concat)

section \<open>Properties of the status decoder\<close>

lemma int32_self: "0 \<le> k \<Longrightarrow> k < 65536 \<Longrightarrow> signed_take_bit 31 k = (k::int)"
  by (intro signed_take_bit_int_eq_self) simp_all

lemma byte_or:
  assumes "0 \<le> a" "a < 256" "0 \<le> b" "b < 256"
  shows "js_or (Some (js_shl (Some a) 8)) (Some b) = a * 256 + b"
proof -
  have a: "signed_take_bit 31 a = a" and b: "signed_take_bit 31 b = b"
    using assms by (simp_all add: int32_self)
  have p: "signed_take_bit 31 (push_bit 8 a) = push_bit 8 a"
    using assms by (intro int32_self) (simp_all add: push_bit_eq_mult)
  have tb: "take_bit 8 b = b"
    using assms by (intro take_bit_int_eq_self) simp_all
  have "push_bit 8 a OR b = concat_bit 8 b a"
    by (simp add: concat_bit_def tb or.commute)
  also have "\<dots> = b + push_bit 8 a"
    by (simp add: concat_bit_eq tb)
  finally have "push_bit 8 a OR b = a * 256 + b"
    by (simp add: push_bit_eq_mult)
  moreover have "(8::nat) mod 32 = 8"
    by simp
  ultimately show ?thesis
    unfolding js_or_def js_shl_def ToInt32_def option.case a b
    by (simp only: p)
qed

lemma byte_shl:
  assumes "0 \<le> a" "a < 256"
  shows "js_or (Some (js_shl (Some a) 8)) None = a * 256"
proof -
  have "signed_take_bit 31 (push_bit 8 a) = push_bit 8 a"
    using assms by (intro int32_self) (simp_all add: push_bit_eq_mult)
  then show ?thesis
    using assms by (simp add: js_or_def js_shl_def ToInt32_def int32_self push_bit_eq_mult)
qed

lemma uint_byte: "0 \<le> uint (w :: 8 word) \<and> uint w < 256"
  using uint_bounded [of w] by simp

lemma operatingStatusOf_bytes:
  "6 \<le> length ps \<Longrightarrow> operatingStatusOf ps = uint (ps ! 4) * 256 + uint (ps ! 5)"
  using uint_byte [of "ps ! 4"] uint_byte [of "ps ! 5"]
  by (simp add: operatingStatusOf_def js_index_def byte_or)

lemma operatingStatusOf_short5:
  "length ps = 5 \<Longrightarrow> operatingStatusOf ps = uint (ps ! 4) * 256"
  using uint_byte [of "ps ! 4"]
  by (simp add: operatingStatusOf_def js_index_def byte_shl)

lemma operatingStatusOf_short:
  "length ps < 5 \<Longrightarrow> operatingStatusOf ps = 0"
  by (simp add: operatingStatusOf_def js_index_def js_or_def js_shl_def ToInt32_def)

lemma lookup_table:
  "lookupOperatingStatus os =
     (if os = 50687 then ready else if os = 50037 then playing
      else if os = 49983 then fastForward else if os = 49999 then rewind
      else if os = 65315 then readingTOC else unknown)"
  by (simp add: lookupOperatingStatus_def OperatingStatus_def)

lemma getDeviceStatus_result:
  assumes "getDeviceStatus mdIface s = (Inr ds, s')"
  shows "\<exists>st ps pos s1 s2.
     getStatus mdIface s = (Inr st, s1) \<and>
     getPlaybackStatus2 mdIface s1 = (Inr ps, s2) \<and>
     getPosition mdIface s2 = (Inr pos, s') \<and>
     ds = deviceStatusOf st ps pos"
  using assms by (auto simp: getDeviceStatus_def await_def resolve_def split: prod.splits sum.splits)

lemma state_deviceStatusOf:
  "state (deviceStatusOf st ps pos) =
     (if lookupOperatingStatus (operatingStatusOf ps) = playing \<and> js_index st 4 \<noteq> Some 0x40
      then ready else lookupOperatingStatus (operatingStatusOf ps))"
  by (simp add: deviceStatusOf_def Let_def)

lemma discPresent_deviceStatusOf:
  "discPresent (deviceStatusOf st ps pos) \<longleftrightarrow> js_index st 4 = Some 0x40"
  by (simp add: deviceStatusOf_def Let_def)

text \<open>
  C4, as stated, fails where the device reports the code 50037 while no disc is present:
  the playback-status bytes 0xC3, 0x75 give the operating status 50037, the table gives
  \<open>playing\<close>, and the state that \<open>getDeviceStatus\<close> returns is \<open>ready\<close>.
\<close>

theorem playing_code_without_disc_is_ready:
  "operatingStatusOf [0, 0, 0, 0, 0xC3, 0x75] = 50037 \<and>
   state (deviceStatusOf [0, 0, 0, 0, 0] [0, 0, 0, 0, 0xC3, 0x75] None) = ready \<and>
   state (deviceStatusOf [0, 0, 0, 0, 0] [0, 0, 0, 0, 0xC3, 0x75] None) \<noteq> playing"
  by (simp add: state_deviceStatusOf operatingStatusOf_bytes lookup_table js_index_def)

text \<open>
  C4, amended. The operating status is the 16-bit big-endian value of bytes 4 and 5 of
  the playback-status buffer, a byte that the buffer does not have counting as 0. The
  state is \<open>ready\<close> for 50687, \<open>fastForward\<close> for 49983, \<open>rewind\<close> for 49999,
  \<open>readingTOC\<close> for 65315 and \<open>unknown\<close> for every value outside the table; for 50037
  it is \<open>playing\<close> when byte 4 of the status buffer is 0x40 and \<open>ready\<close> otherwise.
\<close>

theorem operating_status_decoding:
  "(6 \<le> length ps \<longrightarrow> operatingStatusOf ps = uint (ps ! 4) * 256 + uint (ps ! 5)) \<and>
   (length ps = 5 \<longrightarrow> operatingStatusOf ps = uint (ps ! 4) * 256) \<and>
   (length ps < 5 \<longrightarrow> operatingStatusOf ps = 0) \<and>
   state (deviceStatusOf st ps pos) =
     (if operatingStatusOf ps = 50687 then ready
      else if operatingStatusOf ps = 50037
        then (if js_index st 4 = Some 0x40 then playing else ready)
      else if operatingStatusOf ps = 49983 then fastForward
      else if operatingStatusOf ps = 49999 then rewind
      else if operatingStatusOf ps = 65315 then readingTOC
      else unknown)"
  by (simp add: operatingStatusOf_bytes operatingStatusOf_short5 operatingStatusOf_short
        state_deviceStatusOf lookup_table)

theorem operating_status_decoding_witness:
  "6 \<le> length [0, 0, 0, 0, 0xC5, 0xFF :: 8 word] \<and>
   operatingStatusOf [0, 0, 0, 0, 0xC5, 0xFF] = 50687 \<and>
   state (deviceStatusOf [] [0, 0, 0, 0, 0xC5, 0xFF] None) = ready \<and>
   length [0, 0, 0, 0, 0xC3 :: 8 word] = 5 \<and>
   operatingStatusOf [0, 0, 0, 0, 0xC3] = 49920 \<and>
   state (deviceStatusOf [] [0, 0, 0, 0, 0xC3] None) = unknown \<and>
   length ([] :: 8 word list) < 5 \<and>
   operatingStatusOf [] = 0 \<and>
   state (deviceStatusOf [0, 0, 0, 0, 0x40] [0, 0, 0, 0, 0xC3, 0x75] None) = playing \<and>
   state (deviceStatusOf [] [0, 0, 0, 0, 0x30, 0x39] None) = unknown"
  using operating_status_decoding [of "[0, 0, 0, 0, 0xC5, 0xFF]" "[]" None]
    operating_status_decoding [of "[0, 0, 0, 0, 0xC3]" "[]" None]
    operating_status_decoding [of "[]" "[]" None]
    operating_status_decoding [of "[0, 0, 0, 0, 0xC3, 0x75]" "[0, 0, 0, 0, 0x40]" None]
    operating_status_decoding [of "[0, 0, 0, 0, 0x30, 0x39]" "[]" None]
  by (simp add: js_index_def)

text \<open>
  C5. \<open>discPresent\<close> is true exactly when the status buffer has a byte 4 and that byte
  is 0x40. A status with \<open>discPresent\<close> false never has the state \<open>playing\<close>: when the
  table gives \<open>playing\<close> and the disc is absent, the state is \<open>ready\<close>. The same holds
  of every status that \<open>getDeviceStatus\<close> returns.
\<close>

theorem disc_absent_never_playing:
  "(discPresent (deviceStatusOf st ps pos) \<longleftrightarrow> 5 \<le> length st \<and> st ! 4 = 0x40) \<and>
   (\<not> discPresent (deviceStatusOf st ps pos) \<longrightarrow> state (deviceStatusOf st ps pos) \<noteq> playing) \<and>
   (lookupOperatingStatus (operatingStatusOf ps) = playing \<and>
      \<not> discPresent (deviceStatusOf st ps pos) \<longrightarrow> state (deviceStatusOf st ps pos) = ready) \<and>
   (getDeviceStatus mdIface s = (Inr ds, s') \<longrightarrow>
      (\<exists>st' s1. getStatus mdIface s = (Inr st', s1) \<and>
         (discPresent ds \<longleftrightarrow> 5 \<le> length st' \<and> st' ! 4 = 0x40)) \<and>
      (\<not> discPresent ds \<longrightarrow> state ds \<noteq> playing))"
proof -
  have present: "discPresent (deviceStatusOf st ps pos) \<longleftrightarrow> 5 \<le> length st \<and> st ! 4 = 0x40"
    for st ps pos
    by (auto simp: discPresent_deviceStatusOf js_index_def)
  have absent: "\<not> discPresent (deviceStatusOf st ps pos) \<longrightarrow>
      state (deviceStatusOf st ps pos) \<noteq> playing" for st ps pos
    by (simp add: discPresent_deviceStatusOf state_deviceStatusOf)
  have normalised: "lookupOperatingStatus (operatingStatusOf ps) = playing \<and>
      \<not> discPresent (deviceStatusOf st ps pos) \<longrightarrow> state (deviceStatusOf st ps pos) = ready"
    by (simp add: discPresent_deviceStatusOf state_deviceStatusOf)
  have "(\<exists>st' s1. getStatus mdIface s = (Inr st', s1) \<and>
         (discPresent ds \<longleftrightarrow> 5 \<le> length st' \<and> st' ! 4 = 0x40)) \<and>
      (\<not> discPresent ds \<longrightarrow> state ds \<noteq> playing)"
    if "getDeviceStatus mdIface s = (Inr ds, s')"
  proof -
    from getDeviceStatus_result [OF that] obtain st' ps' pos' s1 where
      "getStatus mdIface s = (Inr st', s1)" "ds = deviceStatusOf st' ps' pos'"
      by blast
    with present [of st' ps' pos'] absent [of st' ps' pos'] show ?thesis
      by blast
  qed
  with present absent normalised show ?thesis
    by blast
qed

theorem disc_absent_never_playing_witness:
  "\<not> discPresent (deviceStatusOf [0, 0, 0, 0, 0] [0, 0, 0, 0, 0xC3, 0x75] None) \<and>
   lookupOperatingStatus (operatingStatusOf [0, 0, 0, 0, 0xC3, 0x75]) = playing \<and>
   state (deviceStatusOf [0, 0, 0, 0, 0] [0, 0, 0, 0, 0xC3, 0x75] None) = ready \<and>
   getDeviceStatus (demo_device [] 0 []) 0 =
     (Inr (deviceStatusOf [0, 0, 0, 0, 0x40] [0, 0, 0, 0, 0xC5, 0xFF] (Some [1, 0, 0, 12, 3])), 3) \<and>
   discPresent (deviceStatusOf [0, 0, 0, 0, 0x40] [0, 0, 0, 0, 0xC5, 0xFF] (Some [1, 0, 0, 12, 3]))"
proof -
  have run: "getDeviceStatus (demo_device [] 0 []) 0 =
     (Inr (deviceStatusOf [0, 0, 0, 0, 0x40] [0, 0, 0, 0, 0xC5, 0xFF] (Some [1, 0, 0, 12, 3])), 3)"
    by (simp add: getDeviceStatus_def await_def resolve_def demo_device_def demo_read_def)
  have table: "lookupOperatingStatus (operatingStatusOf [0, 0, 0, 0, 0xC3, 0x75]) = playing"
    by (simp add: operatingStatusOf_bytes lookup_table)
  have absent: "\<not> discPresent (deviceStatusOf [0, 0, 0, 0, 0] [0, 0, 0, 0, 0xC3, 0x75] None)"
    by (simp add: discPresent_deviceStatusOf js_index_def)
  from disc_absent_never_playing
         [of "[0, 0, 0, 0, 0]" "[0, 0, 0, 0, 0xC3, 0x75]" None "demo_device [] 0 []" 0
            "deviceStatusOf [0, 0, 0, 0, 0x40] [0, 0, 0, 0, 0xC5, 0xFF] (Some [1, 0, 0, 12, 3])" 3]
       run table absent
  show ?thesis
    by (simp add: discPresent_deviceStatusOf js_index_def)
qed

section \<open>Properties of listContent\<close>

lemma await_Inr_iff:
  "await m k s = (Inr y, s') \<longleftrightarrow> (\<exists>x s1. m s = (Inr x, s1) \<and> k x s1 = (Inr y, s'))"
  by (auto simp: await_def split: prod.splits sum.splits)

lemma resolve_Inr: "resolve x s = (Inr y, s') \<longleftrightarrow> y = x \<and> s' = s"
  by (auto simp: resolve_def)

lemma listTracks_step:
  assumes "listTracks mdIface (n # ts) acc s = (Inr r, s')"
  shows "\<exists>t len s1 s2 s3.
           listTracks mdIface ts (acc @ [t]) s3 = (Inr r, s') \<and>
           getTrackLength mdIface n s1 = (Inr len, s2) \<and>
           Track.index t = n \<and> duration t = timeToFrames len"
  using assms
  apply (simp add: await_Inr_iff Let_def case_prod_beta del: timeToFrames.simps split_paired_Ex)
  apply (elim exE conjE)
  apply (intro exI conjI)
     apply assumption
    apply assumption
   apply simp_all
  done

lemma listTracks_result:
  assumes "listTracks mdIface ts acc s = (Inr r, s')"
  shows "\<exists>new. r = acc @ new \<and> map Track.index new = ts \<and>
           (\<forall>t \<in> set new. \<exists>len s1 s2.
              getTrackLength mdIface (Track.index t) s1 = (Inr len, s2) \<and>
              duration t = timeToFrames len)"
  using assms
proof (induction ts arbitrary: acc s)
  case Nil
  then show ?case by (simp add: resolve_Inr)
next
  case (Cons n ts)
  from listTracks_step [OF Cons.prems] obtain t len s1 s2 s3 where t: "Track.index t = n"
     "duration t = timeToFrames len" "getTrackLength mdIface n s1 = (Inr len, s2)"
    and rest: "listTracks mdIface ts (acc @ [t]) s3 = (Inr r, s')"
    by blast
  from Cons.IH [OF rest] obtain new where new: "r = (acc @ [t]) @ new"
     "map Track.index new = ts"
     "\<forall>t \<in> set new. \<exists>len s1 s2.
        getTrackLength mdIface (Track.index t) s1 = (Inr len, s2) \<and> duration t = timeToFrames len"
    by blast
  show ?case
  proof (intro exI [of _ "t # new"] conjI)
    show "r = acc @ t # new" "map Track.index (t # new) = n # ts"
      using new t by simp_all
    show "\<forall>t \<in> set (t # new). \<exists>len s1 s2.
        getTrackLength mdIface (Track.index t) s1 = (Inr len, s2) \<and> duration t = timeToFrames len"
      using new(3) t by (simp del: split_paired_Ex timeToFrames.simps) blast
  qed
qed

lemma listGroups_step:
  assumes "listGroups mdIface ((i, name, ts) # rest) disc s = (Inr d, s')"
  shows "\<exists>trks s1.
     listTracks mdIface ts [] s = (Inr trks, s1) \<and>
     listGroups mdIface rest
       (disc\<lparr>groups := groups disc @ [\<lparr>Group.index = int i, title = name, tracks = trks\<rparr>]\<rparr>) s1
       = (Inr d, s')"
  using assms by (simp add: await_Inr_iff Let_def)

lemma listGroups_result:
  assumes "listGroups mdIface gl disc s = (Inr d, s')"
  shows "\<exists>new. d = disc\<lparr>groups := groups disc @ new\<rparr> \<and>
           map Group.index new = map (int \<circ> fst) gl \<and>
           map (\<lambda>g. map Track.index (tracks g)) new = map (snd \<circ> snd) gl \<and>
           (\<forall>g \<in> set new. \<forall>t \<in> set (tracks g). \<exists>len s1 s2.
              getTrackLength mdIface (Track.index t) s1 = (Inr len, s2) \<and>
              duration t = timeToFrames len)"
  using assms
proof (induction gl arbitrary: disc s)
  case Nil
  then show ?case by (simp add: resolve_Inr)
next
  case (Cons a gl)
  obtain i name ts where a: "a = (i, name, ts)"
    by (cases a)
  from listGroups_step [OF Cons.prems [unfolded a]] obtain trks s1 where
    trks: "listTracks mdIface ts [] s = (Inr trks, s1)"
    and rest: "listGroups mdIface gl
           (disc\<lparr>groups := groups disc @ [\<lparr>Group.index = int i, title = name, tracks = trks\<rparr>]\<rparr>) s1
         = (Inr d, s')"
    by blast
  let ?g = "\<lparr>Group.index = int i, title = name, tracks = trks\<rparr>"
  from listTracks_result [OF trks] have g: "map Track.index trks = ts"
    "\<forall>t \<in> set trks. \<exists>len s1 s2.
        getTrackLength mdIface (Track.index t) s1 = (Inr len, s2) \<and> duration t = timeToFrames len"
    by auto
  from Cons.IH [OF rest] obtain new where new:
    "d = disc\<lparr>groups := groups disc @ [?g]\<rparr>\<lparr>groups := groups (disc\<lparr>groups := groups disc @ [?g]\<rparr>) @ new\<rparr>"
    "map Group.index new = map (int \<circ> fst) gl"
    "map (\<lambda>g. map Track.index (tracks g)) new = map (snd \<circ> snd) gl"
    "\<forall>g \<in> set new. \<forall>t \<in> set (tracks g). \<exists>len s1 s2.
              getTrackLength mdIface (Track.index t) s1 = (Inr len, s2) \<and>
              duration t = timeToFrames len"
    by blast
  show ?case
  proof (intro exI [of _ "?g # new"] conjI)
    show "d = disc\<lparr>groups := groups disc @ (?g # new)\<rparr>"
      using new(1) by simp
    show "map Group.index (?g # new) = map (int \<circ> fst) (a # gl)"
      "map (\<lambda>g. map Track.index (tracks g)) (?g # new) = map (snd \<circ> snd) (a # gl)"
      using new(2,3) g(1) by (simp_all add: a)
    show "\<forall>g \<in> set (?g # new). \<forall>t \<in> set (tracks g). \<exists>len s1 s2.
              getTrackLength mdIface (Track.index t) s1 = (Inr len, s2) \<and>
              duration t = timeToFrames len"
      using new(4) g(2) by (simp del: split_paired_Ex timeToFrames.simps)
  qed
qed

lemma listContent_result:
  assumes "listContent w wp mdIface s = (Inr d, s')"
  shows "\<exists>cap tc tgl s1 s2 s3 s4 s5.
     getDiscCapacity mdIface s1 = (Inr cap, s2) \<and>
     getTrackCount mdIface s3 = (Inr tc, s4) \<and>
     getTrackGroupList mdIface s4 = (Inr tgl, s5) \<and>
     used d = timeToFrames (fst cap) \<and>
     total d = timeToFrames (fst (snd cap)) \<and>
     left d = timeToFrames (snd (snd cap)) \<and>
     trackCount d = tc \<and>
     map Group.index (groups d) = map int [0..<length tgl] \<and>
     map (\<lambda>g. map Track.index (tracks g)) (groups d) = map snd tgl \<and>
     (\<forall>g \<in> set (groups d). \<forall>t \<in> set (tracks g). \<exists>len s1 s2.
        getTrackLength mdIface (Track.index t) s1 = (Inr len, s2) \<and>
        duration t = timeToFrames len)"
proof -
  from assms obtain flags ttl cap tc tgl s1 s2 s3 s4 s5 where
    cap: "getDiscCapacity mdIface s1 = (Inr cap, s2)" and
    tc: "getTrackCount mdIface s3 = (Inr tc, s4)" and
    tgl: "getTrackGroupList mdIface s4 = (Inr tgl, s5)" and
    gs: "listGroups mdIface (enumerate 0 tgl)
           \<lparr>Disc.title = ttl,
             writable = (js_and (Some flags) (Some w) \<noteq> 0),
             writeProtected = (js_and (Some flags) (Some wp) \<noteq> 0),
             used = timeToFrames (fst cap),
             left = timeToFrames (snd (snd cap)),
             total = timeToFrames (fst (snd cap)),
             trackCount = tc,
             groups = []\<rparr> s5 = (Inr d, s')"
    unfolding listContent_def await_Inr_iff Let_def case_prod_beta by blast
  from listGroups_result [OF gs] obtain new where new:
    "d = \<lparr>Disc.title = ttl,
             writable = (js_and (Some flags) (Some w) \<noteq> 0),
             writeProtected = (js_and (Some flags) (Some wp) \<noteq> 0),
             used = timeToFrames (fst cap),
             left = timeToFrames (snd (snd cap)),
             total = timeToFrames (fst (snd cap)),
             trackCount = tc,
             groups = new\<rparr>"
    "map Group.index new = map (int \<circ> fst) (enumerate 0 tgl)"
    "map (\<lambda>g. map Track.index (tracks g)) new = map (snd \<circ> snd) (enumerate 0 tgl)"
    "\<forall>g \<in> set new. \<forall>t \<in> set (tracks g). \<exists>len s1 s2.
        getTrackLength mdIface (Track.index t) s1 = (Inr len, s2) \<and>
        duration t = timeToFrames len"
    by (auto simp del: split_paired_Ex timeToFrames.simps)
  have idx: "map (int \<circ> fst) (enumerate 0 tgl) = map int [0..<length tgl]"
    using map_fst_enumerate [of 0 tgl] by (simp flip: map_map)
  have snd: "map (snd \<circ> snd) (enumerate 0 tgl) = map snd tgl"
    by (simp flip: map_map)
  show ?thesis
    apply (intro exI conjI)
             apply (rule cap)
            apply (rule tc)
           apply (rule tgl)
    using new idx snd
          apply (simp_all del: split_paired_Ex timeToFrames.simps)
    done
qed

lemmas demo_defs = demo_device_def demo_session_def demo_constructor_def demo_command_def
  demo_read_def

lemma demo_listContent:
  "listContent 16 64 (demo_device [] 3 [(Some ''A'', [0, 1]), (Some ''B'', [2])]) 0 =
    (Inr \<lparr>Disc.title = ''Demo'', writable = True, writeProtected = False, used = 4660,
        left = 355340, total = 360000, trackCount = 3,
        groups =
          [\<lparr>Group.index = 0, title = Some ''A'',
              tracks =
                [\<lparr>Track.index = 0, title = None, duration = 4660, channel = 1,
                    encoding = 144, protected = 3\<rparr>,
                 \<lparr>Track.index = 1, title = None, duration = 9160, channel = 1,
                    encoding = 144, protected = 3\<rparr>]\<rparr>,
           \<lparr>Group.index = 1, title = Some ''B'',
              tracks =
                [\<lparr>Track.index = 2, title = None, duration = 13660, channel = 1,
                    encoding = 144, protected = 3\<rparr>]\<rparr>]\<rparr>,
     17)"
  by (simp add: listContent_def demo_defs await_def resolve_def js_and_def ToInt32_def Let_def)

lemma demo_duplicates_listContent:
  "listContent 16 64 (demo_device [] 3 [(Some ''A'', [0, 0])]) 0 =
    (Inr \<lparr>Disc.title = ''Demo'', writable = True, writeProtected = False, used = 4660,
        left = 355340, total = 360000, trackCount = 3,
        groups =
          [\<lparr>Group.index = 0, title = Some ''A'',
              tracks =
                [\<lparr>Track.index = 0, title = None, duration = 4660, channel = 1,
                    encoding = 144, protected = 3\<rparr>,
                 \<lparr>Track.index = 0, title = None, duration = 4660, channel = 1,
                    encoding = 144, protected = 3\<rparr>]\<rparr>]\<rparr>,
     13)"
  by (simp add: listContent_def demo_defs await_def resolve_def js_and_def ToInt32_def Let_def)

text \<open>
  C7. \<open>getTracks\<close> returns the groups' track lists concatenated, in group order and
  then in the order within the group. For a disc that \<open>listContent\<close> returns, the track
  numbers in that order are those of the track-group list read from the device, and the
  groups are numbered by their position. In particular, when the device's track-group
  list is \<open>[("A", [0, 1]), ("B", [2])]\<close>, the track numbers are \<open>[0, 1, 2]\<close> and the
  group indices \<open>[0, 1]\<close>.
\<close>

theorem getTracks_group_order:
  "getTracks d = concat (map tracks (groups d)) \<and>
   (listContent w wp mdIface s = (Inr d', s') \<longrightarrow>
     (\<exists>tgl s1 s2. getTrackGroupList mdIface s1 = (Inr tgl, s2) \<and>
        map Track.index (getTracks d') = concat (map snd tgl) \<and>
        map Group.index (groups d') = map int [0..<length tgl])) \<and>
   ((\<forall>tgl s1 s2. getTrackGroupList mdIface s1 = (Inr tgl, s2) \<longrightarrow>
        tgl = [(Some ''A'', [0, 1]), (Some ''B'', [2])]) \<and>
    listContent w wp mdIface s = (Inr d', s') \<longrightarrow>
      map Track.index (getTracks d') = [0, 1, 2] \<and> map Group.index (groups d') = [0, 1])"
proof (intro conjI impI)
  show "getTracks d = concat (map tracks (groups d))"
    by (rule getTracks_concat)
next
  assume "listContent w wp mdIface s = (Inr d', s')"
  from listContent_result [OF this] obtain tgl s1 s2 where
    "getTrackGroupList mdIface s1 = (Inr tgl, s2)"
    "map Group.index (groups d') = map int [0..<length tgl]"
    "map (\<lambda>g. map Track.index (tracks g)) (groups d') = map snd tgl"
    by blast
  moreover from this(3) have "map Track.index (getTracks d') = concat (map snd tgl)"
    by (simp add: getTracks_indices)
  ultimately show "\<exists>tgl s1 s2. getTrackGroupList mdIface s1 = (Inr tgl, s2) \<and>
        map Track.index (getTracks d') = concat (map snd tgl) \<and>
        map Group.index (groups d') = map int [0..<length tgl]"
    by blast
next
  assume a: "(\<forall>tgl s1 s2. getTrackGroupList mdIface s1 = (Inr tgl, s2) \<longrightarrow>
        tgl = [(Some ''A'', [0, 1]), (Some ''B'', [2])]) \<and>
    listContent w wp mdIface s = (Inr d', s')"
  from listContent_result [OF a [THEN conjunct2]] obtain tgl s1 s2 where
    tgl: "getTrackGroupList mdIface s1 = (Inr tgl, s2)"
    "map Group.index (groups d') = map int [0..<length tgl]"
    "map (\<lambda>g. map Track.index (tracks g)) (groups d') = map snd tgl"
    by blast
  from a tgl(1) have eq: "tgl = [(Some ''A'', [0, 1]), (Some ''B'', [2])]"
    by blast
  from tgl(3) have "map Track.index (getTracks d') = concat (map snd tgl)"
    by (simp add: getTracks_indices)
  then show "map Track.index (getTracks d') = [0, 1, 2]"
    by (simp add: eq)
  show "map Group.index (groups d') = [0, 1]"
    using tgl(2) by (simp add: eq upt_rec)
qed

theorem getTracks_group_order_witness:
  "\<not> isl (fst (listContent 16 64 (demo_device [] 3 [(Some ''A'', [0, 1]), (Some ''B'', [2])]) 0)) \<and>
   map Track.index (getTracks (projr (fst
     (listContent 16 64 (demo_device [] 3 [(Some ''A'', [0, 1]), (Some ''B'', [2])]) 0))))
     = [0, 1, 2] \<and>
   map Group.index (groups (projr (fst
     (listContent 16 64 (demo_device [] 3 [(Some ''A'', [0, 1]), (Some ''B'', [2])]) 0))))
     = [0, 1]"
proof -
  let ?dev = "demo_device [] 3 [(Some ''A'', [0, 1]), (Some ''B'', [2])]"
  let ?d = "projr (fst (listContent 16 64 ?dev 0))"
  have run: "listContent 16 64 ?dev 0 = (Inr ?d, 17)"
    by (simp add: demo_listContent)
  have dev: "\<forall>tgl s1 s2. getTrackGroupList ?dev s1 = (Inr tgl, s2) \<longrightarrow>
        tgl = [(Some ''A'', [0, 1]), (Some ''B'', [2])]"
    by (simp add: demo_defs)
  have "map Track.index (getTracks ?d) = [0, 1, 2] \<and> map Group.index (groups ?d) = [0, 1]"
    using getTracks_group_order [of ?d 16 64 ?dev 0 ?d 17] run dev by blast
  moreover have "\<not> isl (fst (listContent 16 64 ?dev 0))"
    by (simp add: demo_listContent)
  ultimately show ?thesis
    by blast
qed

text \<open>
  C8, as stated, fails: \<open>listContent\<close> copies the track count and the track-group list
  as the device reports them and compares nothing. For a device that reports 3 tracks and
  the single group \<open>("A", [0, 0])\<close>, the disc returned has \<open>trackCount\<close> 3 and the track
  numbers \<open>[0, 0]\<close>: a duplicate, two numbers missing, and two tracks counted.
\<close>

theorem listContent_copies_duplicate_indices:
  "\<not> isl (fst (listContent 16 64 (demo_device [] 3 [(Some ''A'', [0, 0])]) 0)) \<and>
   trackCount (projr (fst (listContent 16 64 (demo_device [] 3 [(Some ''A'', [0, 0])]) 0))) = 3 \<and>
   map Track.index (getTracks (projr (fst
     (listContent 16 64 (demo_device [] 3 [(Some ''A'', [0, 0])]) 0)))) = [0, 0] \<and>
   countTracksInDisc (projr (fst
     (listContent 16 64 (demo_device [] 3 [(Some ''A'', [0, 0])]) 0))) = 2"
  by (simp add: demo_duplicates_listContent getTracks_def countTracksInDisc_def)

text \<open>
  C8, amended. A disc that \<open>listContent\<close> returns has the track count that
  \<open>getTrackCount\<close> returned and, taking the groups together and in order, the track
  numbers of the list that \<open>getTrackGroupList\<close> returned right after it. So when that
  list holds each of the numbers 0 to count - 1 exactly once, the track numbers of the
  disc have no duplicates and no gaps, and their number is the \<open>trackCount\<close> field.
\<close>

theorem listContent_indices_from_device:
  assumes "listContent w wp mdIface s = (Inr d, s')"
  shows "\<exists>tc tgl s1 s2 s3.
     getTrackCount mdIface s1 = (Inr tc, s2) \<and>
     getTrackGroupList mdIface s2 = (Inr tgl, s3) \<and>
     trackCount d = tc \<and>
     map Track.index (getTracks d) = concat (map snd tgl) \<and>
     (0 \<le> tc \<and> distinct (concat (map snd tgl)) \<and> set (concat (map snd tgl)) = {0..<tc} \<longrightarrow>
        distinct (map Track.index (getTracks d)) \<and>
        set (map Track.index (getTracks d)) = {0..<trackCount d} \<and>
        countTracksInDisc d = trackCount d)"
proof -
  from listContent_result [OF assms] obtain tc tgl s1 s2 s3 where r:
    "getTrackCount mdIface s1 = (Inr tc, s2)"
    "getTrackGroupList mdIface s2 = (Inr tgl, s3)"
    "trackCount d = tc"
    "map (\<lambda>g. map Track.index (tracks g)) (groups d) = map snd tgl"
    by blast
  have idx: "map Track.index (getTracks d) = concat (map snd tgl)"
    using r(4) by (simp add: getTracks_indices)
  have "countTracksInDisc d = tc"
    if "distinct (concat (map snd tgl))" "set (concat (map snd tgl)) = {0..<tc}" "0 \<le> tc"
  proof -
    have "card (set (concat (map snd tgl))) = length (concat (map snd tgl))"
      using that(1) by (rule distinct_card)
    then have "int (length (concat (map snd tgl))) = int (card {0..<tc})"
      using that(2) by simp
    also have "\<dots> = tc"
      using that(3) by simp
    finally have "int (length (map Track.index (getTracks d))) = tc"
      by (simp only: idx)
    then show ?thesis
      by (simp add: countTracksInDisc_def countTracks_from getTracks_concat)
  qed
  with r idx show ?thesis
    by (intro exI [of _ tc] exI [of _ tgl] exI [of _ s1] exI [of _ s2] exI [of _ s3]) simp
qed

theorem listContent_indices_from_device_witness:
  "\<not> isl (fst (listContent 16 64 (demo_device [] 3 [(Some ''A'', [0, 1]), (Some ''B'', [2])]) 0)) \<and>
   distinct (map Track.index (getTracks (projr (fst
     (listContent 16 64 (demo_device [] 3 [(Some ''A'', [0, 1]), (Some ''B'', [2])]) 0))))) \<and>
   set (map Track.index (getTracks (projr (fst
     (listContent 16 64 (demo_device [] 3 [(Some ''A'', [0, 1]), (Some ''B'', [2])]) 0)))))
     = {0..<3} \<and>
   countTracksInDisc (projr (fst
     (listContent 16 64 (demo_device [] 3 [(Some ''A'', [0, 1]), (Some ''B'', [2])]) 0))) = 3"
proof -
  let ?dev = "demo_device [] 3 [(Some ''A'', [0, 1]), (Some ''B'', [2])]"
  let ?d = "projr (fst (listContent 16 64 ?dev 0))"
  have run: "listContent 16 64 ?dev 0 = (Inr ?d, 17)"
    by (simp add: demo_listContent)
  from listContent_indices_from_device [OF run] obtain tc tgl s1 s2 s3 where r:
    "getTrackCount ?dev s1 = (Inr tc, s2)"
    "getTrackGroupList ?dev s2 = (Inr tgl, s3)"
    "trackCount ?d = tc"
    "0 \<le> tc \<and> distinct (concat (map snd tgl)) \<and> set (concat (map snd tgl)) = {0..<tc} \<longrightarrow>
        distinct (map Track.index (getTracks ?d)) \<and>
        set (map Track.index (getTracks ?d)) = {0..<trackCount ?d} \<and>
        countTracksInDisc ?d = trackCount ?d"
    by blast
  have tc: "tc = 3" and tgl: "tgl = [(Some ''A'', [0, 1]), (Some ''B'', [2])]"
    using r(1,2) by (simp_all add: demo_defs)
  have "{0, 1, 2} = {0..<3::int}"
    by auto
  then have "0 \<le> tc \<and> distinct (concat (map snd tgl)) \<and> set (concat (map snd tgl)) = {0..<tc}"
    by (simp add: tc tgl)
  with r(3,4) have "distinct (map Track.index (getTracks ?d)) \<and>
        set (map Track.index (getTracks ?d)) = {0..<3} \<and> countTracksInDisc ?d = 3"
    by (simp add: tc)
  moreover have "\<not> isl (fst (listContent 16 64 ?dev 0))"
    by (simp add: demo_listContent)
  ultimately show ?thesis
    by blast
qed

text \<open>
  C9. With \<open>timeToFrames\<close> as the spec gives it, a time of m minutes, s seconds and f
  frames is m * 60 * 75 + s * 75 + f frames, and 1 minute 2 seconds 10 frames is 4660.
  In a disc that \<open>listContent\<close> returns, \<open>used\<close>, \<open>total\<close> and \<open>left\<close> are
  \<open>timeToFrames\<close> of the first, second and third time of a capacity triple read from
  the device, and the duration of every track is \<open>timeToFrames\<close> of a length read for
  that track number.
\<close>

theorem listContent_times_in_frames:
  "timeToFrames (m, sec, f) = m * 60 * 75 + sec * 75 + f \<and>
   timeToFrames (1, 2, 10) = 4660 \<and>
   (listContent w wp mdIface s = (Inr d, s') \<longrightarrow>
      (\<exists>cap s1 s2. getDiscCapacity mdIface s1 = (Inr cap, s2) \<and>
         used d = timeToFrames (fst cap) \<and>
         total d = timeToFrames (fst (snd cap)) \<and>
         left d = timeToFrames (snd (snd cap))) \<and>
      (\<forall>t \<in> set (getTracks d). \<exists>len s1 s2.
         getTrackLength mdIface (Track.index t) s1 = (Inr len, s2) \<and>
         duration t = timeToFrames len))"
proof (intro conjI impI)
  assume "listContent w wp mdIface s = (Inr d, s')"
  from listContent_result [OF this] obtain cap s1 s2 where r:
    "getDiscCapacity mdIface s1 = (Inr cap, s2)"
    "used d = timeToFrames (fst cap)"
    "total d = timeToFrames (fst (snd cap))"
    "left d = timeToFrames (snd (snd cap))"
    "\<forall>g \<in> set (groups d). \<forall>t \<in> set (tracks g). \<exists>len s1 s2.
        getTrackLength mdIface (Track.index t) s1 = (Inr len, s2) \<and>
        duration t = timeToFrames len"
    by blast
  from r(1-4) show "\<exists>cap s1 s2. getDiscCapacity mdIface s1 = (Inr cap, s2) \<and>
         used d = timeToFrames (fst cap) \<and>
         total d = timeToFrames (fst (snd cap)) \<and>
         left d = timeToFrames (snd (snd cap))"
    by blast
  from r(5) show "\<forall>t \<in> set (getTracks d). \<exists>len s1 s2.
         getTrackLength mdIface (Track.index t) s1 = (Inr len, s2) \<and>
         duration t = timeToFrames len"
    by (simp add: getTracks_concat del: split_paired_Ex timeToFrames.simps)
qed simp_all

theorem listContent_times_in_frames_witness:
  "\<not> isl (fst (listContent 16 64 (demo_device [] 3 [(Some ''A'', [0, 1]), (Some ''B'', [2])]) 0)) \<and>
   used (projr (fst
     (listContent 16 64 (demo_device [] 3 [(Some ''A'', [0, 1]), (Some ''B'', [2])]) 0))) = 4660 \<and>
   total (projr (fst
     (listContent 16 64 (demo_device [] 3 [(Some ''A'', [0, 1]), (Some ''B'', [2])]) 0))) = 360000 \<and>
   left (projr (fst
     (listContent 16 64 (demo_device [] 3 [(Some ''A'', [0, 1]), (Some ''B'', [2])]) 0))) = 355340 \<and>
   map duration (getTracks (projr (fst
     (listContent 16 64 (demo_device [] 3 [(Some ''A'', [0, 1]), (Some ''B'', [2])]) 0))))
     = [timeToFrames (1, 2, 10), timeToFrames (2, 2, 10), timeToFrames (3, 2, 10)]"
proof -
  let ?dev = "demo_device [] 3 [(Some ''A'', [0, 1]), (Some ''B'', [2])]"
  let ?d = "projr (fst (listContent 16 64 ?dev 0))"
  have run: "listContent 16 64 ?dev 0 = (Inr ?d, 17)"
    by (simp add: demo_listContent)
  from listContent_times_in_frames [of 1 2 10 16 64 ?dev 0 ?d 17] run
  obtain cap s1 s2 where cap: "getDiscCapacity ?dev s1 = (Inr cap, s2)"
    "used ?d = timeToFrames (fst cap)"
    "total ?d = timeToFrames (fst (snd cap))"
    "left ?d = timeToFrames (snd (snd cap))"
    by blast
  from cap(1) have "cap = ((1, 2, 10), (80, 0, 0), (78, 57, 65))"
    by (simp add: demo_defs)
  with cap(2-4) have "used ?d = 4660" "total ?d = 360000" "left ?d = 355340"
    by simp_all
  moreover have "\<not> isl (fst (listContent 16 64 ?dev 0))"
    "map duration (getTracks ?d)
       = [timeToFrames (1, 2, 10), timeToFrames (2, 2, 10), timeToFrames (3, 2, 10)]"
    by (simp_all add: demo_listContent getTracks_def)
  ultimately show ?thesis
    by blast
qed

section \<open>Properties of download\<close>

text \<open>
  Logging changes neither the result nor the device state of an execution.
\<close>

lemma unlog_logged: "unlog (logged c m (s, log)) = m s"
  by (simp add: unlog_def logged_def split: prod.splits)

lemma unlog_resolve: "unlog (resolve x (s, log)) = resolve x s"
  by (simp add: unlog_def resolve_def)

lemma unlog_await:
  assumes "\<And>s log. unlog (M (s, log)) = m s"
    and "\<And>x s log. unlog (K x (s, log)) = k x s"
  shows "unlog (await M K (s, log)) = await m k s"
proof -
  obtain r s1 log1 where M: "M (s, log) = (r, s1, log1)"
    using prod_cases3 by blast
  with assms(1) [of s log] have m: "m s = (r, s1)"
    by (simp add: unlog_def)
  show ?thesis
    using assms(2) by (cases r) (simp_all add: await_def M m unlog_def)
qed

lemma unlog_try_catch:
  assumes "\<And>s log. unlog (M (s, log)) = m s"
    and "\<And>e s log. unlog (H e (s, log)) = h e s"
  shows "unlog (try_catch M H (s, log)) = try_catch m h s"
proof -
  obtain r s1 log1 where M: "M (s, log) = (r, s1, log1)"
    using prod_cases3 by blast
  with assms(1) [of s log] have m: "m s = (r, s1)"
    by (simp add: unlog_def)
  show ?thesis
    using assms(2) by (cases r) (simp_all add: try_catch_def M m unlog_def)
qed

lemma unlog_constructor:
  assumes "\<And>session s log. unlog (K (logged_session session) (s, log)) = k session s"
  shows "unlog (await (logged_constructor new) K (s, log)) = await new k s"
  unfolding logged_constructor_def
proof -
  obtain r s1 where n: "new s = (r, s1)"
    by fastforce
  show "unlog (await (await (logged NewMDSession new) (\<lambda>session. resolve (logged_session session))) K (s, log)) = await new k s"
    using assms by (cases r) (simp_all add: await_def logged_def resolve_def n unlog_def)
qed

lemma unlog_triple:
  assumes "\<And>a b c s log. unlog (K a b c (s, log)) = k a b c s"
  shows "unlog ((case x of (a, b, c) \<Rightarrow> K a b c) (s, log)) = (case x of (a, b, c) \<Rightarrow> k a b c) s"
  by (cases x) (simp add: assms)

lemma unlog_download:
  "unlog (download (logged_interface mdIface) (logged_constructor new) t cb (s, log))
     = download mdIface new t cb s"
  unfolding download_def
  by (intro unlog_await unlog_try_catch unlog_constructor unlog_triple unlog_resolve)
     (simp_all add: logged_interface_def logged_session_def unlog_logged)

text \<open>
  Every execution of \<open>download\<close> takes one of the paths.
\<close>

lemma resolve_apply: "resolve x s = (Inr x, s)"
  by (simp add: resolve_def)

lemma logged_step:
  "await (logged c m) k (s, log) =
     (case m s of
        (Inl e, s') \<Rightarrow> (Inl e, (s', log @ [(c, Some e)]))
      | (Inr x, s') \<Rightarrow> k x (s', log @ [(c, None)]))"
  by (simp add: await_def logged_def outcome_def split: prod.splits sum.splits)

lemma best_effort_step:
  "await (try_catch (logged c m) (\<lambda>err. resolve ())) k (s, log) =
     (case m s of (r, s') \<Rightarrow> k () (s', log @ [(c, outcome r)]))"
  by (simp add: await_def try_catch_def resolve_def logged_def split: prod.splits sum.splits)

lemma cleanup_step:
  "await (try_catch (await (logged c1 a) (\<lambda>_. logged c2 b)) (\<lambda>err. resolve ())) k (s, log) =
     (case a s of
        (Inl e, s1) \<Rightarrow> k () (s1, log @ [(c1, Some e)])
      | (Inr _, s1) \<Rightarrow> (case b s1 of (r, s2) \<Rightarrow> k () (s2, log @ [(c1, None), (c2, outcome r)])))"
  by (simp add: await_def try_catch_def resolve_def logged_def outcome_def
           split: prod.splits sum.splits)

lemma constructor_step:
  "await (logged_constructor new) k (s, log) =
     (case new s of
        (Inl e, s') \<Rightarrow> (Inl e, (s', log @ [(NewMDSession, Some e)]))
      | (Inr session, s') \<Rightarrow> k (logged_session session) (s', log @ [(NewMDSession, None)]))"
  by (simp add: logged_constructor_def await_def resolve_def logged_def outcome_def
           split: prod.splits sum.splits)

lemma cleanup_then:
  assumes "\<And>pre s1. cleanup_path pre \<Longrightarrow> k () (s1, pre) = (res, s', calls) \<Longrightarrow> P"
    and "await (try_catch (await (logged SessionKeyForget a) (\<lambda>_. logged LeaveSecureSession b))
           (\<lambda>err. resolve ())) k (s, []) = (res, s', calls)"
  shows P
  using assms(2) unfolding cleanup_step
  by (auto split: prod.splits sum.splits intro: assms(1) cleanup_path.intros)

lemma logged_session_simps:
  "init (logged_session session) = logged SessionInit (init session)"
  "downloadTrack (logged_session session) t cb = logged DownloadTrack (downloadTrack session t cb)"
  "close (logged_session session) = logged SessionClose (close session)"
  by (simp_all add: logged_session_def)

lemma after_cleanup:
  assumes "cleanup_path pre"
    and "await (logged Acquire acq) (\<lambda>_.
         await (try_catch (logged DisableNewTrackProtection d) (\<lambda>err. resolve ())) (\<lambda>_.
         await (logged_constructor new) (\<lambda>session.
         await (init session) (\<lambda>_.
         await (downloadTrack session t cb) (\<lambda>(trk, uuid, ccid).
         await (close session) (\<lambda>_.
         await (logged Release rel) (\<lambda>_.
         resolve (trk, uuid, ccid)))))))) (s1, pre) = (res, s', calls)"
  shows "download_path calls res"
  using assms(2)
  by (auto simp: logged_step best_effort_step constructor_step logged_session_simps resolve_apply
        split: prod.splits sum.splits
        intro: download_path.intros [OF assms(1)])

lemma download_takes_path:
  fixes mdIface :: "('s, 'e) NetMDInterface"
  shows "download_path (download_calls mdIface new t cb s) (fst (download mdIface new t cb s))"
proof -
  obtain res s' calls where run:
    "download (logged_interface mdIface) (logged_constructor new) t cb (s, []) = (res, s', calls)"
    using prod_cases3 by blast
  have "download_path calls res"
  proof (rule cleanup_then)
    show "await (try_catch
              (await (logged SessionKeyForget (sessionKeyForget mdIface)) (\<lambda>_.
               logged LeaveSecureSession (leaveSecureSession mdIface)))
              (\<lambda>err. resolve ())) (\<lambda>_.
     await (logged Acquire (acquire mdIface)) (\<lambda>_.
     await (try_catch
              (logged DisableNewTrackProtection (disableNewTrackProtection mdIface 1))
              (\<lambda>err. resolve ())) (\<lambda>_.
     await (logged_constructor new) (\<lambda>session.
     await (init session) (\<lambda>_.
     await (downloadTrack session t cb) (\<lambda>(trk, uuid, ccid).
     await (close session) (\<lambda>_.
     await (logged Release (release mdIface)) (\<lambda>_.
     resolve (trk, uuid, ccid))))))))) (s, []) = (res, s', calls)"
      using run by (simp add: download_def logged_interface_def)
  next
    fix pre s1
    assume "cleanup_path (pre :: 'e event list)"
    then show "await (logged Acquire (acquire mdIface)) (\<lambda>_.
     await (try_catch
              (logged DisableNewTrackProtection (disableNewTrackProtection mdIface 1))
              (\<lambda>err. resolve ())) (\<lambda>_.
     await (logged_constructor new) (\<lambda>session.
     await (init session) (\<lambda>_.
     await (downloadTrack session t cb) (\<lambda>(trk, uuid, ccid).
     await (close session) (\<lambda>_.
     await (logged Release (release mdIface)) (\<lambda>_.
     resolve (trk, uuid, ccid)))))))) (s1, pre) = (res, s', calls) \<Longrightarrow> download_path calls res"
      by (rule after_cleanup)
  qed
  moreover have "fst (download mdIface new t cb s) = res"
    using unlog_download [of mdIface new t cb s "[]", symmetric] by (simp add: unlog_def run)
  ultimately show ?thesis
    by (simp add: download_calls_def run)
qed

lemmas run_defs = download_calls_def download_def await_def try_catch_def resolve_def
  logged_interface_def logged_session_def logged_constructor_def logged_def outcome_def

text \<open>
  C1, as stated, fails: \<open>download\<close> has no \<open>finally\<close>, so an error of \<open>session.init\<close>
  leaves the function before \<open>session.close\<close> and \<open>release\<close>. On the scripted device
  whose \<open>session.init\<close> throws, \<open>acquire\<close> succeeds, the caller gets the error of
  \<open>session.init\<close>, and neither \<open>close\<close> nor \<open>release\<close> is called.
\<close>

theorem download_init_failure_skips_teardown:
  "download_calls (demo_device [SessionInit] 0 []) (demo_constructor [SessionInit]) () None 0 =
     [(SessionKeyForget, None), (LeaveSecureSession, None), (Acquire, None),
      (DisableNewTrackProtection, None), (NewMDSession, None), (SessionInit, Some SessionInit)] \<and>
   fst (download (demo_device [SessionInit] 0 []) (demo_constructor [SessionInit]) () None 0) =
     Inl SessionInit \<and>
   count_list (map fst (download_calls (demo_device [SessionInit] 0 [])
     (demo_constructor [SessionInit]) () None 0)) SessionClose = 0 \<and>
   count_list (map fst (download_calls (demo_device [SessionInit] 0 [])
     (demo_constructor [SessionInit]) () None 0)) Release = 0"
  by (simp add: run_defs demo_defs)

text \<open>
  C1, amended. In every execution of \<open>download\<close> in which \<open>acquire\<close> succeeds,
  \<open>session.close\<close> and \<open>release\<close> are each called at most once. \<open>close\<close> is called
  exactly when the session was constructed and \<open>session.init\<close> and \<open>downloadTrack\<close>
  succeeded; \<open>release\<close> is called exactly when \<open>close\<close> succeeded, and then \<open>close\<close> and
  \<open>release\<close> are the last two calls, in this order. When the construction,
  \<open>session.init\<close>, \<open>downloadTrack\<close>, \<open>close\<close> or \<open>release\<close> throws, that call is the
  last one and its error is what the caller gets.
\<close>

theorem download_teardown_after_acquire:
  assumes "(Acquire, None) \<in> set (download_calls mdIface new t cb s)"
  shows "count_list (map fst (download_calls mdIface new t cb s)) SessionClose \<le> 1 \<and>
     count_list (map fst (download_calls mdIface new t cb s)) Release \<le> 1 \<and>
     (SessionClose \<in> fst ` set (download_calls mdIface new t cb s) \<longleftrightarrow>
        (NewMDSession, None) \<in> set (download_calls mdIface new t cb s) \<and>
        (SessionInit, None) \<in> set (download_calls mdIface new t cb s) \<and>
        (DownloadTrack, None) \<in> set (download_calls mdIface new t cb s)) \<and>
     (Release \<in> fst ` set (download_calls mdIface new t cb s) \<longleftrightarrow>
        (SessionClose, None) \<in> set (download_calls mdIface new t cb s)) \<and>
     (Release \<in> fst ` set (download_calls mdIface new t cb s) \<longrightarrow>
        map fst (drop (length (download_calls mdIface new t cb s) - 2)
                   (download_calls mdIface new t cb s)) = [SessionClose, Release]) \<and>
     (\<forall>c e. (c, Some e) \<in> set (download_calls mdIface new t cb s) \<and>
            c \<in> {NewMDSession, SessionInit, DownloadTrack, SessionClose, Release} \<longrightarrow>
            fst (download mdIface new t cb s) = Inl e \<and>
            last (download_calls mdIface new t cb s) = (c, Some e))"
  using download_takes_path [of mdIface new t cb s] assms
  by (auto elim!: download_path.cases cleanup_path.cases)

theorem download_teardown_after_acquire_witness:
  "(Acquire, None) \<in> set (download_calls (demo_device [] 0 []) (demo_constructor []) () None 0) \<and>
   count_list (map fst (download_calls (demo_device [] 0 []) (demo_constructor []) () None 0))
     SessionClose = 1 \<and>
   count_list (map fst (download_calls (demo_device [] 0 []) (demo_constructor []) () None 0))
     Release = 1 \<and>
   map fst (drop (length (download_calls (demo_device [] 0 []) (demo_constructor []) () None 0) - 2)
     (download_calls (demo_device [] 0 []) (demo_constructor []) () None 0))
     = [SessionClose, Release] \<and>
   fst (download (demo_device [] 0 []) (demo_constructor []) () None 0) = Inr (7, ''uuid'', ''ccid'') \<and>
   (Acquire, None) \<in> set (download_calls (demo_device [DownloadTrack] 0 [])
     (demo_constructor [DownloadTrack]) () None 0) \<and>
   (DownloadTrack, Some DownloadTrack) \<in> set (download_calls (demo_device [DownloadTrack] 0 [])
     (demo_constructor [DownloadTrack]) () None 0) \<and>
   fst (download (demo_device [DownloadTrack] 0 []) (demo_constructor [DownloadTrack]) () None 0)
     = Inl DownloadTrack"
proof -
  have ok: "download_calls (demo_device [] 0 []) (demo_constructor []) () None 0 =
     [(SessionKeyForget, None), (LeaveSecureSession, None), (Acquire, None),
      (DisableNewTrackProtection, None), (NewMDSession, None), (SessionInit, None),
      (DownloadTrack, None), (SessionClose, None), (Release, None)]"
    by (simp add: run_defs demo_defs)
  have res: "fst (download (demo_device [] 0 []) (demo_constructor []) () None 0)
     = Inr (7, ''uuid'', ''ccid'')"
    by (simp add: run_defs demo_defs)
  have failing: "download_calls (demo_device [DownloadTrack] 0 [])
       (demo_constructor [DownloadTrack]) () None 0 =
     [(SessionKeyForget, None), (LeaveSecureSession, None), (Acquire, None),
      (DisableNewTrackProtection, None), (NewMDSession, None), (SessionInit, None),
      (DownloadTrack, Some DownloadTrack)]"
    by (simp add: run_defs demo_defs)
  have a1: "(Acquire, None) \<in> set (download_calls (demo_device [] 0 []) (demo_constructor []) () None 0)"
    by (simp add: ok)
  have a2: "(Acquire, None) \<in> set (download_calls (demo_device [DownloadTrack] 0 [])
     (demo_constructor [DownloadTrack]) () None 0)"
    by (simp add: failing)
  have "fst (download (demo_device [DownloadTrack] 0 []) (demo_constructor [DownloadTrack]) () None 0)
     = Inl DownloadTrack"
    using download_teardown_after_acquire [OF a2] by (simp add: failing)
  moreover have "Release \<in> fst ` set (download_calls (demo_device [] 0 []) (demo_constructor []) () None 0)"
    using download_teardown_after_acquire [OF a1] by (simp add: ok)
  ultimately show ?thesis
    using a1 a2 res by (simp add: ok failing)
qed

text \<open>
  C2. A failure of \<open>sessionKeyForget\<close>, \<open>leaveSecureSession\<close> or
  \<open>disableNewTrackProtection\<close> is swallowed, and the execution goes on through all the
  steps that follow. Every execution starts with \<open>sessionKeyForget\<close>. A
  \<open>sessionKeyForget\<close> that throws and every \<open>leaveSecureSession\<close>, whatever its
  outcome, is followed by \<open>acquire\<close>; every \<open>disableNewTrackProtection\<close>, whatever
  its outcome, by the construction of the session. Each of the other calls
  that succeeds is followed by the next step of the source: \<open>acquire\<close> by
  \<open>disableNewTrackProtection\<close>, the construction by \<open>session.init\<close>, then
  \<open>downloadTrack\<close>, \<open>session.close\<close> and \<open>release\<close>. No execution ends at one of the
  three best-effort calls: it ends either at a successful \<open>release\<close>, and then the
  caller gets a result and \<open>downloadTrack\<close> has succeeded, or at a call among
  \<open>acquire\<close>, the construction, \<open>session.init\<close>, \<open>downloadTrack\<close>,
  \<open>session.close\<close> and \<open>release\<close> that throws, and then the caller gets the error of
  that call. So an error of a best-effort call is never what the caller gets, and a
  result is returned only after all the steps have run.
\<close>

theorem download_best_effort_steps_swallowed:
  "download_calls mdIface new t cb s \<noteq> [] \<and>
   fst (hd (download_calls mdIface new t cb s)) = SessionKeyForget \<and>
   fst (last (download_calls mdIface new t cb s))
     \<notin> {SessionKeyForget, LeaveSecureSession, DisableNewTrackProtection} \<and>
   (\<forall>(a, b) \<in> set (zip (download_calls mdIface new t cb s)
                       (tl (download_calls mdIface new t cb s))).
      (fst a = SessionKeyForget \<and> snd a \<noteq> None \<longrightarrow> fst b = Acquire) \<and>
      (fst a = LeaveSecureSession \<longrightarrow> fst b = Acquire) \<and>
      (fst a = DisableNewTrackProtection \<longrightarrow> fst b = NewMDSession) \<and>
      (a = (SessionKeyForget, None) \<longrightarrow> fst b = LeaveSecureSession) \<and>
      (a = (Acquire, None) \<longrightarrow> fst b = DisableNewTrackProtection) \<and>
      (a = (NewMDSession, None) \<longrightarrow> fst b = SessionInit) \<and>
      (a = (SessionInit, None) \<longrightarrow> fst b = DownloadTrack) \<and>
      (a = (DownloadTrack, None) \<longrightarrow> fst b = SessionClose) \<and>
      (a = (SessionClose, None) \<longrightarrow> fst b = Release) \<and>
      (fst a \<in> {Acquire, NewMDSession, SessionInit, DownloadTrack, SessionClose}
         \<longrightarrow> snd a = None) \<and>
      fst a \<noteq> Release) \<and>
   (snd (last (download_calls mdIface new t cb s)) = None \<longrightarrow>
      last (download_calls mdIface new t cb s) = (Release, None)) \<and>
   (\<forall>e. fst (download mdIface new t cb s) = Inl e \<longrightarrow>
      snd (last (download_calls mdIface new t cb s)) = Some e \<and>
      fst (last (download_calls mdIface new t cb s))
        \<in> {Acquire, NewMDSession, SessionInit, DownloadTrack, SessionClose, Release}) \<and>
   (\<forall>v. fst (download mdIface new t cb s) = Inr v \<longrightarrow>
      last (download_calls mdIface new t cb s) = (Release, None) \<and>
      map fst (drop (length (download_calls mdIface new t cb s) - 7)
                 (download_calls mdIface new t cb s)) =
        [Acquire, DisableNewTrackProtection, NewMDSession, SessionInit, DownloadTrack,
         SessionClose, Release] \<and>
      {(Acquire, None), (NewMDSession, None), (SessionInit, None), (DownloadTrack, None),
       (SessionClose, None)} \<subseteq> set (download_calls mdIface new t cb s))"
  using download_takes_path [of mdIface new t cb s]
  by (auto elim!: download_path.cases cleanup_path.cases)

theorem download_best_effort_steps_swallowed_witness:
  "download_calls (demo_device [SessionKeyForget, DisableNewTrackProtection, DownloadTrack] 0 [])
     (demo_constructor [SessionKeyForget, DisableNewTrackProtection, DownloadTrack]) () None 0 =
     [(SessionKeyForget, Some SessionKeyForget), (Acquire, None),
      (DisableNewTrackProtection, Some DisableNewTrackProtection), (NewMDSession, None),
      (SessionInit, None), (DownloadTrack, Some DownloadTrack)] \<and>
   fst (download (demo_device [SessionKeyForget, DisableNewTrackProtection, DownloadTrack] 0 [])
     (demo_constructor [SessionKeyForget, DisableNewTrackProtection, DownloadTrack]) () None 0)
     = Inl DownloadTrack \<and>
   download_calls (demo_device [LeaveSecureSession, DisableNewTrackProtection] 0 [])
     (demo_constructor [LeaveSecureSession, DisableNewTrackProtection]) () None 0 =
     [(SessionKeyForget, None), (LeaveSecureSession, Some LeaveSecureSession), (Acquire, None),
      (DisableNewTrackProtection, Some DisableNewTrackProtection), (NewMDSession, None),
      (SessionInit, None), (DownloadTrack, None), (SessionClose, None), (Release, None)] \<and>
   fst (download (demo_device [LeaveSecureSession, DisableNewTrackProtection] 0 [])
     (demo_constructor [LeaveSecureSession, DisableNewTrackProtection]) () None 0)
     = Inr (7, ''uuid'', ''ccid'') \<and>
   last (download_calls (demo_device [LeaveSecureSession, DisableNewTrackProtection] 0 [])
     (demo_constructor [LeaveSecureSession, DisableNewTrackProtection]) () None 0)
     = (Release, None)"
proof -
  let ?f = "[SessionKeyForget, DisableNewTrackProtection, DownloadTrack]"
  let ?g = "[LeaveSecureSession, DisableNewTrackProtection]"
  have calls: "download_calls (demo_device ?f 0 []) (demo_constructor ?f) () None 0 =
     [(SessionKeyForget, Some SessionKeyForget), (Acquire, None),
      (DisableNewTrackProtection, Some DisableNewTrackProtection), (NewMDSession, None),
      (SessionInit, None), (DownloadTrack, Some DownloadTrack)]"
    by (simp add: run_defs demo_defs)
  have failed: "isl (fst (download (demo_device ?f 0 []) (demo_constructor ?f) () None 0))"
    by (simp add: run_defs demo_defs)
  have thm_f: "\<forall>e. fst (download (demo_device ?f 0 []) (demo_constructor ?f) () None 0) = Inl e \<longrightarrow>
      snd (last (download_calls (demo_device ?f 0 []) (demo_constructor ?f) () None 0)) = Some e"
    using download_best_effort_steps_swallowed
            [of "demo_device ?f 0 []" "demo_constructor ?f" "()" None 0]
    by blast
  have "fst (download (demo_device ?f 0 []) (demo_constructor ?f) () None 0) = Inl DownloadTrack"
    using thm_f failed
    by (cases "fst (download (demo_device ?f 0 []) (demo_constructor ?f) () None 0)")
       (simp_all add: calls)
  moreover have calls_g: "download_calls (demo_device ?g 0 []) (demo_constructor ?g) () None 0 =
     [(SessionKeyForget, None), (LeaveSecureSession, Some LeaveSecureSession), (Acquire, None),
      (DisableNewTrackProtection, Some DisableNewTrackProtection), (NewMDSession, None),
      (SessionInit, None), (DownloadTrack, None), (SessionClose, None), (Release, None)]"
    and res_g: "fst (download (demo_device ?g 0 []) (demo_constructor ?g) () None 0)
       = Inr (7, ''uuid'', ''ccid'')"
    by (simp_all add: run_defs demo_defs)
  moreover have "last (download_calls (demo_device ?g 0 []) (demo_constructor ?g) () None 0)
     = (Release, None)"
    using download_best_effort_steps_swallowed
            [of "demo_device ?g 0 []" "demo_constructor ?g" "()" None 0] res_g
    by blast
  ultimately show ?thesis
    using calls by simp
qed

text \<open>
  C3. In every execution of \<open>download\<close> in which \<open>acquire\<close> throws, the caller gets
  that error and \<open>acquire\<close> is the last call: \<open>disableNewTrackProtection\<close> is not
  called, no session is constructed or initialised, \<open>downloadTrack\<close> is not called, and
  neither \<open>close\<close> nor \<open>release\<close> is called.
\<close>

theorem download_acquire_failure_aborts:
  assumes "(Acquire, Some e) \<in> set (download_calls mdIface new t cb s)"
  shows "fst (download mdIface new t cb s) = Inl e \<and>
     last (download_calls mdIface new t cb s) = (Acquire, Some e) \<and>
     fst ` set (download_calls mdIface new t cb s) \<inter>
       {DisableNewTrackProtection, NewMDSession, SessionInit, DownloadTrack, SessionClose, Release}
       = {}"
  using download_takes_path [of mdIface new t cb s] assms
  by (auto elim!: download_path.cases cleanup_path.cases)

theorem download_acquire_failure_aborts_witness:
  "download_calls (demo_device [Acquire] 0 []) (demo_constructor [Acquire]) () None 0 =
     [(SessionKeyForget, None), (LeaveSecureSession, None), (Acquire, Some Acquire)] \<and>
   fst (download (demo_device [Acquire] 0 []) (demo_constructor [Acquire]) () None 0) = Inl Acquire"
proof -
  have calls: "download_calls (demo_device [Acquire] 0 []) (demo_constructor [Acquire]) () None 0 =
     [(SessionKeyForget, None), (LeaveSecureSession, None), (Acquire, Some Acquire)]"
    by (simp add: run_defs demo_defs)
  then have "(Acquire, Some Acquire)
      \<in> set (download_calls (demo_device [Acquire] 0 []) (demo_constructor [Acquire]) () None 0)"
    by simp
  from download_acquire_failure_aborts [OF this] calls show ?thesis
    by simp
qed

text \<open>
  C10. \<open>sessionKeyForget\<close> and \<open>leaveSecureSession\<close> are in one \<open>try\<close> block: in every
  execution of \<open>download\<close> in which \<open>sessionKeyForget\<close> throws, \<open>leaveSecureSession\<close>
  is not called at all, and the second call is \<open>acquire\<close>.
\<close>

theorem download_forget_failure_skips_leave:
  assumes "(SessionKeyForget, Some e) \<in> set (download_calls mdIface new t cb s)"
  shows "LeaveSecureSession \<notin> fst ` set (download_calls mdIface new t cb s) \<and>
     map fst (take 2 (download_calls mdIface new t cb s)) = [SessionKeyForget, Acquire]"
  using download_takes_path [of mdIface new t cb s] assms
  by (auto elim!: download_path.cases cleanup_path.cases)

theorem download_forget_failure_skips_leave_witness:
  "download_calls (demo_device [SessionKeyForget] 0 []) (demo_constructor [SessionKeyForget])
     () None 0 =
     [(SessionKeyForget, Some SessionKeyForget), (Acquire, None),
      (DisableNewTrackProtection, None), (NewMDSession, None), (SessionInit, None),
      (DownloadTrack, None), (SessionClose, None), (Release, None)] \<and>
   LeaveSecureSession \<notin> fst ` set (download_calls (demo_device [SessionKeyForget] 0 [])
     (demo_constructor [SessionKeyForget]) () None 0)"
proof -
  have calls: "download_calls (demo_device [SessionKeyForget] 0 [])
       (demo_constructor [SessionKeyForget]) () None 0 =
     [(SessionKeyForget, Some SessionKeyForget), (Acquire, None),
      (DisableNewTrackProtection, None), (NewMDSession, None), (SessionInit, None),
      (DownloadTrack, None), (SessionClose, None), (Release, None)]"
    by (simp add: run_defs demo_defs)
  then have "(SessionKeyForget, Some SessionKeyForget)
      \<in> set (download_calls (demo_device [SessionKeyForget] 0 [])
               (demo_constructor [SessionKeyForget]) () None 0)"
    by simp
  from download_forget_failure_skips_leave [OF this] calls show ?thesis
    by blast
qed

end
